theory Spec2Isabelle
  imports Complex_Main
begin

chapter \<open>The program\<close>

section \<open>Data model\<close>

text \<open>
  The solvers of \<^verbatim>\<open>tensorly/tenalg/proximal.py\<close> work on numpy arrays of floats.
  An array entry is modelled as a real number: comparisons, sums, products and quotients
  are the exact ones, and rounding, infinities and NaN are outside the model. A 1-D array is
  a list, a 2-D array a list of rows, a tensor handed to an elementwise operation the list of
  its entries in row-major order.
\<close>

type_synonym vec = "real list"
type_synonym matrix = "real list list"

text \<open>
  Every \<^verbatim>\<open>raise\<close> the modelled code can reach is a value. \<open>ZeroColumn k\<close> is
  \<^verbatim>\<open>ValueError("Column " + str(k) + " of U is zero with nonzero condition")\<close>;
  \<open>ZeroSizeReduction\<close> is numpy's ValueError for \<^verbatim>\<open>max\<close>/\<^verbatim>\<open>min\<close> of an empty array;
  \<open>NotInList\<close> is \<^verbatim>\<open>list.remove(x): x not in list\<close>. \<open>NonFinite\<close> is no
  exception: numpy divides a float by zero to inf or nan and carries on, and the real-valued
  model ends there.
\<close>

datatype failure =
    ZeroColumn nat
  | UnboundLocalError string
  | NameError string
  | ZeroDivisionError
  | ZeroSizeReduction
  | NotInList
  | TypeError string
  | LinAlgError
  | NonFinite

text \<open>
  \<^verbatim>\<open>tl.shape\<close> of a 2-D array. A list of rows with no row carries no column count; it
  is given 0 columns, and no modelled path reads the column count of such an array.
\<close>

definition shape :: "matrix \<Rightarrow> nat \<times> nat" where
  "shape M = (length M, if M = [] then 0 else length (hd M))"


definition nonneg :: "matrix \<Rightarrow> bool" where
  "nonneg M = list_all (list_all (\<lambda>v. 0 \<le> v)) M"

subsection \<open>Array primitives of the backend\<close>

definition column :: "matrix \<Rightarrow> nat \<Rightarrow> vec" where
  "column M j = map (\<lambda>row. row ! j) M"

definition inner :: "vec \<Rightarrow> vec \<Rightarrow> real" where
  "inner u v = sum_list (map2 (*) u v)"

text \<open>\<^verbatim>\<open>tl.dot(u, M)\<close> for a 1-D \<open>u\<close> and a 2-D \<open>M\<close>.\<close>

definition dot_vm :: "vec \<Rightarrow> matrix \<Rightarrow> vec" where
  "dot_vm u M = map (\<lambda>j. inner u (column M j)) [0..<snd (shape M)]"

text \<open>\<^verbatim>\<open>tl.where(c, a, b)\<close>, elementwise.\<close>

definition tl_where :: "bool list \<Rightarrow> vec \<Rightarrow> vec \<Rightarrow> vec" where
  "tl_where c a b = map (\<lambda>(ci, ai, bi). if ci then ai else bi) (zip c (zip a b))"

definition tl_norm :: "vec \<Rightarrow> real" where
  "tl_norm v = sqrt (inner v v)"

text \<open>\<^verbatim>\<open>tl.max\<close> of a non-empty array.\<close>

definition tl_max :: "vec \<Rightarrow> real" where
  "tl_max v = fold max (tl v) (hd v)"

definition tl_min :: "vec \<Rightarrow> real" where
  "tl_min v = fold min (tl v) (hd v)"

definition clip0 :: "matrix \<Rightarrow> matrix" where
  "clip0 M = map (map (max 0)) M"

definition tl_sum :: "matrix \<Rightarrow> real" where
  "tl_sum M = sum_list (map sum_list M)"

definition hadamard :: "matrix \<Rightarrow> matrix \<Rightarrow> matrix" where
  "hadamard A B = map2 (map2 (*)) A B"

text \<open>\<^verbatim>\<open>tl.dot(V, tl.transpose(V))\<close>.\<close>

definition gram_rows :: "matrix \<Rightarrow> matrix" where
  "gram_rows V = map (\<lambda>u. map (inner u) V) V"

section \<open>hals_nnls\<close>

text \<open>The keyword arguments of \<^verbatim>\<open>hals_nnls\<close>, with their defaults.\<close>

record hals_options =
  n_iter_max :: int
  tol :: real
  sparsity_coefficient :: "real option"
  normalize :: bool
  nonzero_rows :: bool
  exact :: bool

definition default_options :: hals_options where
  "default_options =
     \<lparr>n_iter_max = 500, tol = 10 / 10 ^ 8, sparsity_coefficient = None,
      normalize = False, nonzero_rows = False, exact = False\<rparr>"

text \<open>
  Lines 191-198: the initial \<open>V\<close>. \<^verbatim>\<open>tl.solve\<close> is the backend's linear solver, a
  parameter here; it raises on a singular system.
\<close>

definition init_V ::
  "(matrix \<Rightarrow> matrix \<Rightarrow> failure + matrix) \<Rightarrow> matrix \<Rightarrow> matrix \<Rightarrow> matrix option \<Rightarrow> failure + matrix"
where
  "init_V solve UtM UtU V =
     (case V of
        Some V0 \<Rightarrow> Inr V0
      | None \<Rightarrow>
          (case solve UtU UtM of
             Inl e \<Rightarrow> Inl e
           | Inr X \<Rightarrow>
               let Vc = clip0 X;
                   num = tl_sum (hadamard UtM Vc);
                   den = tl_sum (hadamard UtU (gram_rows Vc))
               in if den = 0 then Inl NonFinite
                  else Inr (map (map ((*) (num / den))) Vc)))"

text \<open>
  Lines 211 and 217: the unconstrained step of row \<open>k\<close>,
  \<^verbatim>\<open>(UtM[k, :] - tl.dot(UtU[k, :], V) [- sparsity_coefficient]) / UtU[k, k]\<close>.
\<close>

definition row_step :: "matrix \<Rightarrow> matrix \<Rightarrow> real option \<Rightarrow> matrix \<Rightarrow> nat \<Rightarrow> vec" where
  "row_step UtM UtU sc V k =
     (case sc of
        Some c \<Rightarrow> map2 (\<lambda>m d. (m - d - c) / (UtU ! k ! k)) (UtM ! k) (dot_vm (UtU ! k) V)
      | None \<Rightarrow> map2 (\<lambda>m d. (m - d) / (UtU ! k ! k)) (UtM ! k) (dot_vm (UtU ! k) V))"

text \<open>Lines 211-218: the step clamped below by \<^verbatim>\<open>-V[k, :]\<close>.\<close>

definition deltaV :: "matrix \<Rightarrow> matrix \<Rightarrow> real option \<Rightarrow> matrix \<Rightarrow> nat \<Rightarrow> vec" where
  "deltaV UtM UtU sc V k =
     (let step = row_step UtM UtU sc V k
      in tl_where (map2 (\<lambda>s v. s > - v) step (V ! k)) step (map uminus (V ! k)))"

text \<open>
  Lines 208-228: the update of row \<open>k\<close>, on the pair of \<open>V\<close> and the running
  \<^verbatim>\<open>rec_error\<close>.
\<close>

definition row_update ::
  "real \<Rightarrow> matrix \<Rightarrow> matrix \<Rightarrow> hals_options \<Rightarrow> nat \<Rightarrow> matrix \<times> real \<Rightarrow> failure + matrix \<times> real"
where
  "row_update eps UtM UtU opts k Vr =
     (case Vr of (V, rec_error) \<Rightarrow>
        if UtU ! k ! k \<noteq> 0 then
          let d = deltaV UtM UtU (sparsity_coefficient opts) V k;
              V1 = V[k := map2 (+) (V ! k) d];
              rec_error1 = rec_error + inner d d
          in if nonzero_rows opts \<and> list_all (\<lambda>v. v = 0) (V1 ! k)
             then (if concat V1 = [] then Inl ZeroSizeReduction
                   else Inr (V1[k := replicate (length (V1 ! k)) (eps * tl_max (concat V1))],
                             rec_error1))
             else Inr (V1, rec_error1)
        else if nonzero_rows opts then Inl (ZeroColumn k)
        else Inr (V, rec_error))"

text \<open>Lines 230-236: the optional normalisation of row \<open>k\<close>.\<close>

definition row_normalize ::
  "hals_options \<Rightarrow> nat \<Rightarrow> nat \<Rightarrow> matrix \<times> real \<Rightarrow> failure + matrix \<times> real"
where
  "row_normalize opts n_col_M k Vr =
     (case Vr of (V, rec_error) \<Rightarrow>
        if normalize opts then
          let nrm = tl_norm (V ! k)
          in if nrm \<noteq> 0 then Inr (V[k := map (\<lambda>v. v / nrm) (V ! k)], rec_error)
             else if n_col_M = 0 then Inl ZeroDivisionError
             else Inr (V[k := replicate n_col_M (1 / sqrt (real n_col_M))], rec_error)
        else Inr (V, rec_error))"

definition row_body ::
  "real \<Rightarrow> matrix \<Rightarrow> matrix \<Rightarrow> hals_options \<Rightarrow> nat \<Rightarrow> matrix \<times> real \<Rightarrow> failure + matrix \<times> real"
where
  "row_body eps UtM UtU opts k Vr =
     (case row_update eps UtM UtU opts k Vr of
        Inl e \<Rightarrow> Inl e
      | Inr Vr' \<Rightarrow> row_normalize opts (snd (shape UtM)) k Vr')"

text \<open>Line 206: \<^verbatim>\<open>for k in range(rank)\<close>.\<close>

fun rows_loop ::
  "(nat \<Rightarrow> matrix \<times> real \<Rightarrow> failure + matrix \<times> real) \<Rightarrow> nat list \<Rightarrow> matrix \<times> real
     \<Rightarrow> failure + matrix \<times> real"
where
  "rows_loop f [] Vr = Inr Vr"
| "rows_loop f (k # ks) Vr =
     (case f k Vr of Inl e \<Rightarrow> Inl e | Inr Vr' \<Rightarrow> rows_loop f ks Vr')"

text \<open>Lines 204-236: one outer iteration up to the end of the row loop.\<close>

definition sweep ::
  "real \<Rightarrow> matrix \<Rightarrow> matrix \<Rightarrow> hals_options \<Rightarrow> matrix \<Rightarrow> failure + matrix \<times> real" where
  "sweep eps UtM UtU opts V =
     rows_loop (row_body eps UtM UtU opts) [0..<fst (shape UtM)] (V, 0)"

text \<open>
  Lines 240-242. The shapes are Python integers, so a zero denominator raises.
\<close>

definition complexity_ratio :: "matrix \<Rightarrow> nat \<Rightarrow> failure + real" where
  "complexity_ratio V rank =
     (let numerator = fst (shape V) * snd (shape V) + snd (shape V) * rank;
          denominator = fst (shape V) * rank + fst (shape V)
      in if denominator = 0 then Inl ZeroDivisionError
         else Inr (1 + real numerator / real denominator))"

text \<open>Lines 205 and 237-238: the value of \<^verbatim>\<open>rec_error0\<close> when the stop test reads it.\<close>

definition rec_error0_at :: "nat \<Rightarrow> real \<Rightarrow> real" where
  "rec_error0_at iteration rec_error = (if iteration = 1 then rec_error else 0)"

text \<open>Lines 243-248: the test that breaks out of the outer loop.\<close>

definition stop_test :: "bool \<Rightarrow> real \<Rightarrow> real \<Rightarrow> real \<Rightarrow> nat \<Rightarrow> real \<Rightarrow> bool" where
  "stop_test ex tolerance rec_error rec_error0 iteration cr =
     (if ex then rec_error < tolerance * rec_error0
      else rec_error < tolerance * rec_error0 \<or> real iteration > 1 + 0.5 * cr)"

text \<open>
  Lines 203-250: the outer loop, \<open>remaining\<close> iterations from index \<open>iteration\<close> on.
  \<open>prev\<close> holds \<^verbatim>\<open>rec_error\<close>, \<^verbatim>\<open>iteration\<close> and \<^verbatim>\<open>complexity_ratio\<close> as the
  previous iteration left them; before the first iteration they are unbound, and the
  \<^verbatim>\<open>return\<close> of line 250 raises.
\<close>

fun hals_loop ::
  "real \<Rightarrow> matrix \<Rightarrow> matrix \<Rightarrow> hals_options \<Rightarrow> real \<Rightarrow> nat \<Rightarrow> nat
     \<Rightarrow> (real \<times> nat \<times> real) option \<Rightarrow> matrix \<Rightarrow> failure + matrix \<times> real \<times> int \<times> real"
where
  "hals_loop eps UtM UtU opts tolerance 0 iteration prev V =
     (case prev of
        None \<Rightarrow> Inl (UnboundLocalError ''rec_error'')
      | Some (rec_error, it, cr) \<Rightarrow> Inr (V, rec_error, int it, cr))"
| "hals_loop eps UtM UtU opts tolerance (Suc remaining) iteration prev V =
     (case sweep eps UtM UtU opts V of
        Inl e \<Rightarrow> Inl e
      | Inr (V', rec_error) \<Rightarrow>
          (case complexity_ratio V' (fst (shape UtM)) of
             Inl e \<Rightarrow> Inl e
           | Inr cr \<Rightarrow>
               if stop_test (exact opts) tolerance rec_error (rec_error0_at iteration rec_error)
                    iteration cr
               then Inr (V', rec_error, int iteration, cr)
               else hals_loop eps UtM UtU opts tolerance remaining (Suc iteration)
                      (Some (rec_error, iteration, cr)) V'))"

text \<open>Lines 199-201: what \<^verbatim>\<open>exact\<close> does to the cap and the tolerance.\<close>

definition effective_n_iter_max :: "hals_options \<Rightarrow> int" where
  "effective_n_iter_max opts = (if exact opts then 5000 else n_iter_max opts)"

definition effective_tol :: "hals_options \<Rightarrow> real" where
  "effective_tol opts = (if exact opts then 10 / 10 ^ 12 else tol opts)"

text \<open>
  \<^verbatim>\<open>hals_nnls(UtM, UtU, V, ...)\<close>. \<open>solve\<close> is \<^verbatim>\<open>tl.solve\<close> and \<open>eps\<close> is
  \<^verbatim>\<open>tl.eps(V.dtype)\<close>, both of the backend. The result is the returned tuple
  \<^verbatim>\<open>(V, rec_error, iteration, complexity_ratio)\<close>.
\<close>

definition hals_nnls ::
  "(matrix \<Rightarrow> matrix \<Rightarrow> failure + matrix) \<Rightarrow> real \<Rightarrow> matrix \<Rightarrow> matrix \<Rightarrow> matrix option
     \<Rightarrow> hals_options \<Rightarrow> failure + matrix \<times> real \<times> int \<times> real"
where
  "hals_nnls solve eps UtM UtU V opts =
     (case init_V solve UtM UtU V of
        Inl e \<Rightarrow> Inl e
      | Inr V0 \<Rightarrow>
          hals_loop eps UtM UtU opts (effective_tol opts)
            (nat (effective_n_iter_max opts)) 0 None V0)"

text \<open>A stand-in for \<^verbatim>\<open>tl.solve\<close> that is right when the system's matrix is the identity.\<close>

definition solve_by_identity :: "matrix \<Rightarrow> matrix \<Rightarrow> failure + matrix" where
  "solve_by_identity A B = Inr B"


text \<open>
  What the \<open>j\<close>-th outer iteration (counted from 0) leaves when the loop has not
  stopped before it: \<open>V\<close> and that sweep's \<^verbatim>\<open>rec_error\<close>.
\<close>

fun sweep_iter ::
  "real \<Rightarrow> matrix \<Rightarrow> matrix \<Rightarrow> hals_options \<Rightarrow> nat \<Rightarrow> matrix \<Rightarrow> failure + matrix \<times> real"
where
  "sweep_iter eps UtM UtU opts 0 V = sweep eps UtM UtU opts V"
| "sweep_iter eps UtM UtU opts (Suc j) V =
     (case sweep eps UtM UtU opts V of
        Inl e \<Rightarrow> Inl e
      | Inr (V', _) \<Rightarrow> sweep_iter eps UtM UtU opts j V')"



section \<open>Names the module binds\<close>

text \<open>
  Line 1 is the module's only import; the \<^verbatim>\<open>def\<close> statements bind the six functions.
  A name a function reads and does not assign is looked up in the module's globals, then in
  Python's builtins, and raises \<^verbatim>\<open>NameError\<close> when neither binds it. \<open>builtins\<close>
  lists the builtin names the module's functions read.
\<close>

datatype binding = Module string | Function string | Builtin

definition module_globals :: "(string \<times> binding) list" where
  "module_globals =
     [(''tl'', Module ''tensorly''),
      (''soft_thresholding'', Function ''soft_thresholding''),
      (''svd_thresholding'', Function ''svd_thresholding''),
      (''procrustes'', Function ''procrustes''),
      (''hals_nnls'', Function ''hals_nnls''),
      (''active_set_nnls'', Function ''active_set_nnls''),
      (''fista_nnls'', Function ''fista_nnls'')]"

definition builtins :: "string list" where
  "builtins = [''min'', ''range'', ''str'', ''enumerate'', ''list'', ''len'']"

definition lookup_name :: "string \<Rightarrow> failure + binding" where
  "lookup_name name =
     (case map_of module_globals name of
        Some b \<Rightarrow> Inr b
      | None \<Rightarrow> if name \<in> set builtins then Inr Builtin else Inl (NameError name))"

section \<open>Functions of tensorly the two tensor solvers call\<close>

text \<open>
  \<^verbatim>\<open>tl.tenalg.multi_mode_dot(tensor, matrices, transpose=...)\<close>,
  \<^verbatim>\<open>tl.tenalg.kronecker\<close> and \<^verbatim>\<open>tl.zeros()\<close> called with no shape are not in
  this file; they are parameters. A tensor is the list of its entries, so
  \<^verbatim>\<open>tl.base.tensor_to_vec\<close> is the identity.
\<close>

record tensorly_api =
  api_multi_mode_dot :: "vec \<Rightarrow> matrix list \<Rightarrow> bool \<Rightarrow> vec"
  api_kronecker :: "matrix list \<Rightarrow> matrix"
  api_zeros_no_shape :: "failure + vec"

text \<open>Lines 269-271 and 359-361: \<^verbatim>\<open>tl.dot(tl.conj(tl.transpose(b)), b)\<close>.\<close>

definition gram :: "matrix \<Rightarrow> matrix" where
  "gram b =
     map (\<lambda>i. map (\<lambda>j. inner (column b i) (column b j)) [0..<snd (shape b)])
       [0..<snd (shape b)]"

section \<open>active_set_nnls\<close>

text \<open>\<^verbatim>\<open>w.argmax()\<close>: the first index of the largest entry.\<close>

definition argmax :: "vec \<Rightarrow> nat" where
  "argmax w = length (takeWhile (\<lambda>v. v \<noteq> tl_max w) w)"

text \<open>
  Lines 284-292, the head of an iteration: stop (the \<^verbatim>\<open>break\<close> of line 285), or go on
  with the passive list \<open>P\<close> and the active list \<open>R\<close> as the pivot leaves them.
\<close>

datatype pivot = Stop | Pivot "nat list" "nat list"

definition active_set_pivot :: "vec \<Rightarrow> nat list \<Rightarrow> nat list \<Rightarrow> failure + pivot" where
  "active_set_pivot w P R =
     (if w = [] then Inl ZeroSizeReduction
      else if tl_min w < 0 then Inr Stop
      else
        let indice = argmax w
        in if P = [] then
             (if indice \<in> set R then Inr (Pivot (P @ [indice]) (remove1 indice R))
              else Inl NotInList)
           else if last P \<noteq> indice then
             (if indice \<in> set R then Inr (Pivot (P @ [indice]) (remove1 indice R))
              else Inl NotInList)
           else Inr (Pivot P R))"

record as_state =
  as_x :: vec
  as_x_vec :: vec
  as_w :: vec
  as_P :: "nat list"
  as_R :: "nat list"
  as_s :: vec
  as_rec_erroras :: "real list"

text \<open>
  Lines 283-331: the loop. \<open>core\<close> stands for lines 294-330 (the restricted solve, the
  repair of an infeasible solution, the new \<open>w\<close> and the convergence test); it returns the
  new state and whether it left the loop. No property below depends on what it computes.
\<close>

fun active_set_loop ::
  "(nat \<Rightarrow> as_state \<Rightarrow> failure + as_state \<times> bool) \<Rightarrow> nat \<Rightarrow> nat \<Rightarrow> as_state \<Rightarrow> failure + vec"
where
  "active_set_loop core 0 iteration st = Inr (as_x st)"
| "active_set_loop core (Suc remaining) iteration st =
     (case active_set_pivot (as_w st) (as_P st) (as_R st) of
        Inl e \<Rightarrow> Inl e
      | Inr Stop \<Rightarrow> Inr (as_x st)
      | Inr (Pivot P' R') \<Rightarrow>
          (case core iteration (st\<lparr>as_P := P', as_R := R'\<rparr>) of
             Inl e \<Rightarrow> Inl e
           | Inr (st', left) \<Rightarrow>
               if left then Inr (as_x st')
               else active_set_loop core remaining (Suc iteration) st'))"

text \<open>
  \<^verbatim>\<open>active_set_nnls(A, B, x, n_iter_max)\<close>. Line 273 reads the bare name
  \<^verbatim>\<open>multi_mode_dot\<close>; line 278 reads it as \<^verbatim>\<open>tl.tenalg.multi_mode_dot\<close>.
\<close>

definition active_set_nnls ::
  "tensorly_api \<Rightarrow> (matrix \<Rightarrow> vec \<Rightarrow> matrix list \<Rightarrow> nat \<Rightarrow> as_state \<Rightarrow> failure + as_state \<times> bool)
     \<Rightarrow> vec \<Rightarrow> matrix list \<Rightarrow> vec option \<Rightarrow> int \<Rightarrow> failure + vec"
where
  "active_set_nnls api core A B x n_iter =
     (let pseudo_inverse = map gram B
      in case lookup_name ''multi_mode_dot'' of
           Inl e \<Rightarrow> Inl e
         | Inr _ \<Rightarrow>
             (case x of
                None \<Rightarrow> Inl (TypeError ''x is None'')
              | Some x0 \<Rightarrow>
                  let AtB = api_multi_mode_dot api A B True;
                      AtA = api_kronecker api pseudo_inverse;
                      second = api_multi_mode_dot api x0 pseudo_inverse False;
                      w = map2 (-) AtB second
                  in active_set_loop (core AtA AtB pseudo_inverse) (nat n_iter) 0
                       \<lparr>as_x = x0, as_x_vec = x0, as_w = w, as_P = [],
                        as_R = [0..<length w], as_s = replicate (length x0) 0,
                        as_rec_erroras = []\<rparr>))"

section \<open>fista_nnls\<close>

record fista_state =
  fs_x :: vec
  fs_x_upd :: vec
  fs_momentum_0 :: real
  fs_norm_0 :: real

text \<open>Lines 366-368: the state before the first iteration.\<close>

definition fista_init :: "vec \<Rightarrow> fista_state" where
  "fista_init x0 = \<lparr>fs_x = x0, fs_x_upd = x0, fs_momentum_0 = 1, fs_norm_0 = 0\<rparr>"

text \<open>Line 372. \<open>pinv t\<close> is \<^verbatim>\<open>tl.tenalg.multi_mode_dot(t, pseudo_inverse, transpose=False)\<close>.\<close>

definition fista_gradient :: "(vec \<Rightarrow> vec) \<Rightarrow> vec \<Rightarrow> vec \<Rightarrow> vec" where
  "fista_gradient pinv BtA x_upd = map2 (+) (map uminus BtA) (pinv x_upd)"

text \<open>
  Line 373:
  \<^verbatim>\<open>tl.where(gradient_step * gradient < x, gradient_step * gradient, x_upd)\<close>.
\<close>

definition fista_delta_x :: "real \<Rightarrow> vec \<Rightarrow> vec \<Rightarrow> vec \<Rightarrow> vec" where
  "fista_delta_x gradient_step gradient x x_upd =
     tl_where (map2 (\<lambda>g xi. gradient_step * g < xi) gradient x)
       (map ((*) gradient_step) gradient) x_upd"

text \<open>
  Lines 372-381, one iteration once \<^verbatim>\<open>np\<close> resolves: the new state and
  \<^verbatim>\<open>norm\<close>. \<^verbatim>\<open>np.sqrt\<close> is the real square root.
\<close>

definition fista_step :: "(vec \<Rightarrow> vec) \<Rightarrow> vec \<Rightarrow> real \<Rightarrow> nat \<Rightarrow> fista_state \<Rightarrow> fista_state \<times> real" where
  "fista_step pinv BtA gradient_step iteration st =
     (let gradient = fista_gradient pinv BtA (fs_x_upd st);
          delta_x = fista_delta_x gradient_step gradient (fs_x st) (fs_x_upd st);
          xnew = map2 (-) (fs_x_upd st) delta_x;
          momentum = (1 + sqrt (1 + 4 * (fs_momentum_0 st) ^ 2)) / 2;
          x_upd' = map2 (+) xnew
                     (map ((*) ((fs_momentum_0 st - 1) / momentum)) (map2 (-) xnew (fs_x st)));
          nrm = tl_norm delta_x
      in (\<lparr>fs_x = xnew, fs_x_upd = x_upd', fs_momentum_0 = momentum,
           fs_norm_0 = (if iteration = 1 then nrm else fs_norm_0 st)\<rparr>, nrm))"

text \<open>Lines 371-384: the loop. Line 375 reads the name \<^verbatim>\<open>np\<close>.\<close>

fun fista_loop ::
  "(vec \<Rightarrow> vec) \<Rightarrow> vec \<Rightarrow> real \<Rightarrow> nat \<Rightarrow> nat \<Rightarrow> fista_state \<Rightarrow> failure + vec"
where
  "fista_loop pinv BtA gradient_step 0 iteration st = Inr (fs_x st)"
| "fista_loop pinv BtA gradient_step (Suc remaining) iteration st =
     (case lookup_name ''np'' of
        Inl e \<Rightarrow> Inl e
      | Inr _ \<Rightarrow>
          (case fista_step pinv BtA gradient_step iteration st of
             (st', nrm) \<Rightarrow>
               if nrm < 0.01 * fs_norm_0 st' then Inr (fs_x st')
               else fista_loop pinv BtA gradient_step remaining (Suc iteration) st'))"

text \<open>Lines 349-353: an argument left at \<^verbatim>\<open>None\<close> takes its default.\<close>

definition default_arg :: "'a \<Rightarrow> 'a option \<Rightarrow> 'a" where
  "default_arg d v = (case v of None \<Rightarrow> d | Some a \<Rightarrow> a)"

text \<open>Lines 355-356: \<^verbatim>\<open>if x is None: x=tl.zeros()\<close>.\<close>

definition fista_x0 :: "tensorly_api \<Rightarrow> vec option \<Rightarrow> failure + vec" where
  "fista_x0 api x = (case x of None \<Rightarrow> api_zeros_no_shape api | Some x0 \<Rightarrow> Inr x0)"

text \<open>
  \<^verbatim>\<open>fista_nnls(A, B, x, n_iter_max, gradient_step, sparsity_coefficient)\<close>. Line 363
  reads the bare name \<^verbatim>\<open>multi_mode_dot\<close>. \<^verbatim>\<open>sparsity_coefficient\<close> is given its
  default and never read again.
\<close>

definition fista_nnls ::
  "tensorly_api \<Rightarrow> vec \<Rightarrow> matrix list \<Rightarrow> vec option \<Rightarrow> int \<Rightarrow> real option \<Rightarrow> real option
     \<Rightarrow> failure + vec"
where
  "fista_nnls api A B x n_iter gradient_step sparsity =
     (let sparsity' = default_arg 0 sparsity;
          gradient_step' = default_arg 0.001 gradient_step
      in case fista_x0 api x of
           Inl e \<Rightarrow> Inl e
         | Inr x0 \<Rightarrow>
             let pseudo_inverse = map gram B
             in (case lookup_name ''multi_mode_dot'' of
                   Inl e \<Rightarrow> Inl e
                 | Inr _ \<Rightarrow>
                     let BtA = api_multi_mode_dot api A B True
                     in fista_loop (\<lambda>t. api_multi_mode_dot api t pseudo_inverse False) BtA
                          gradient_step' (nat n_iter) 0 (fista_init x0)))"


text \<open>
  The momentum sequence in the specification's words: it starts at 1 and follows
  \<open>momentum' = (1 + sqrt(1 + 4 momentum\<^sup>2)) / 2\<close>.
\<close>

fun nesterov_momentum :: "nat \<Rightarrow> real" where
  "nesterov_momentum 0 = 1"
| "nesterov_momentum (Suc k) = (1 + sqrt (1 + 4 * (nesterov_momentum k) ^ 2)) / 2"


text \<open>Row \<open>k\<close> of \<open>V\<close>, if there is one, has no negative entry.\<close>

definition row_ok :: "matrix \<Rightarrow> nat \<Rightarrow> bool" where
  "row_ok V k = (if k < length V then list_all (\<lambda>v. 0 \<le> v) (V ! k) else True)"

chapter \<open>Properties\<close>

section \<open>Properties of hals_nnls\<close>

lemma hals_loop_iteration_bounds:
  "hals_loop eps UtM UtU opts tolerance m i prev V = Inr (V', re, it, cr) \<Longrightarrow>
   (case prev of None \<Rightarrow> True | Some (_, j, _) \<Rightarrow> Suc j = i) \<Longrightarrow>
   int i \<le> it + 1 \<and> it < int i + int m \<and> (prev = None \<longrightarrow> int i \<le> it)"
proof (induction m arbitrary: i prev V)
  case 0
  then show ?case by (auto split: option.splits)
next
  case (Suc m)
  show ?case
  proof (cases "sweep eps UtM UtU opts V")
    case (Inl e)
    with Suc.prems show ?thesis by simp
  next
    case (Inr Vr)
    obtain V1 re1 where Vr: "Vr = (V1, re1)" by (cases Vr)
    show ?thesis
    proof (cases "complexity_ratio V1 (fst (shape UtM))")
      case (Inl e)
      with Suc.prems Inr Vr show ?thesis by simp
    next
      case cr: (Inr cr1)
      show ?thesis
      proof (cases "stop_test (exact opts) tolerance re1 (rec_error0_at i re1) i cr1")
        case True
        with Suc.prems Inr Vr cr show ?thesis by simp
      next
        case False
        with Suc.prems Inr Vr cr
        have run: "hals_loop eps UtM UtU opts tolerance m (Suc i) (Some (re1, i, cr1)) V1
                     = Inr (V', re, it, cr)"
          by simp
        from Suc.IH [OF run] show ?thesis by auto
      qed
    qed
  qed
qed



lemma hals_loop_exhausted:
  "hals_loop eps UtM UtU opts t 0 i (Some (re, j, cr)) V = Inr (V, re, int j, cr)"
  by simp

lemmas hals_eval =
  sweep_def shape_def row_body_def row_update_def row_normalize_def
  deltaV_def row_step_def dot_vm_def inner_def column_def tl_where_def upt_rec

subsection \<open>The returned iteration\<close>

text \<open>
  C10. A call of \<^verbatim>\<open>hals_nnls\<close> that returns gives an \<^verbatim>\<open>iteration\<close> with
  \<open>0 \<le> iteration \<le> n_iter_max\<close>, where \<open>n_iter_max\<close> counts as 5000 when
  \<^verbatim>\<open>exact\<close> is set. The returned value is the index of the last iteration run, so it
  is even below the cap. Nothing is asked of \<open>n_iter_max\<close>: with a cap of zero or less
  the call does not return, since line 250 reads names the loop never bound.
\<close>

theorem hals_nnls_iteration_range:
  assumes "hals_nnls solve eps UtM UtU V opts = Inr (V', re, it, cr)"
  shows "0 \<le> it \<and> it \<le> (if exact opts then 5000 else n_iter_max opts)
         \<and> it < effective_n_iter_max opts"
proof -
  from assms obtain V0 where
    run: "hals_loop eps UtM UtU opts (effective_tol opts) (nat (effective_n_iter_max opts)) 0 None V0
            = Inr (V', re, it, cr)"
    by (auto simp: hals_nnls_def split: sum.splits)
  from hals_loop_iteration_bounds [OF run]
  have "0 \<le> it" and "it < int (nat (effective_n_iter_max opts))" by simp_all
  then show ?thesis by (auto simp: effective_n_iter_max_def split: if_splits)
qed

lemma one_by_one_sweep:
  "sweep e [[1]] [[1]] (default_options\<lparr>n_iter_max := 1\<rparr>) [[0]] = Inr ([[1]], 1)"
  by (simp add: hals_eval default_options_def)

lemma one_by_one_run:
  "hals_nnls solve_by_identity e [[1]] [[1]] (Some [[0]]) (default_options\<lparr>n_iter_max := 1\<rparr>)
     = Inr ([[1]], 1, 0, 2)"
proof -
  have cr: "complexity_ratio [[1]] (fst (shape [[1]])) = Inr 2"
    by (simp add: complexity_ratio_def shape_def)
  have ex: "exact (default_options\<lparr>n_iter_max := 1\<rparr>) = False"
    by (simp add: default_options_def)
  show ?thesis
    unfolding hals_nnls_def
    by (simp add: init_V_def effective_tol_def effective_n_iter_max_def ex
        one_by_one_sweep cr stop_test_def rec_error0_at_def)
qed

theorem hals_nnls_iteration_range_witness:
  "hals_nnls solve_by_identity (1 / 2 ^ 52) [[1]] [[1]] (Some [[0]])
       (default_options\<lparr>n_iter_max := 1\<rparr>) = Inr ([[1]], 1, 0, 2)
   \<and> (0::int) \<le> 0
   \<and> (0::int) < effective_n_iter_max (default_options\<lparr>n_iter_max := 1\<rparr>)"
  using hals_nnls_iteration_range [OF one_by_one_run [of "1 / 2 ^ 52"]] one_by_one_run [of "1 / 2 ^ 52"]
  by simp

subsection \<open>The identity system\<close>


lemma identity_sweep:
  "sweep e [[2, 0], [0, 3]] [[1, 0], [0, 1]] default_options [[2, 0], [0, 3]]
     = Inr ([[2, 0], [0, 3]], 0)"
  by (simp add: hals_eval default_options_def)





lemma hals_loop_result:
  "hals_loop eps UtM UtU opts t m i prev V = Inr (Vf, re, it, cr) \<Longrightarrow> 0 < m \<Longrightarrow>
   \<exists>k<m. it = int (i + k)
     \<and> sweep_iter eps UtM UtU opts k V = Inr (Vf, re)
     \<and> complexity_ratio Vf (fst (shape UtM)) = Inr cr
     \<and> (k + 1 < m \<longrightarrow> stop_test (exact opts) t re (rec_error0_at (i + k) re) (i + k) cr)
     \<and> (\<forall>j<k. \<forall>Vj rej crj. sweep_iter eps UtM UtU opts j V = Inr (Vj, rej) \<longrightarrow>
            complexity_ratio Vj (fst (shape UtM)) = Inr crj \<longrightarrow>
            \<not> stop_test (exact opts) t rej (rec_error0_at (i + j) rej) (i + j) crj)"
proof (induction m arbitrary: i prev V)
  case 0
  then show ?case by simp
next
  case (Suc m)
  from Suc.prems(1) obtain V1 re1 where sw: "sweep eps UtM UtU opts V = Inr (V1, re1)"
    by (cases "sweep eps UtM UtU opts V") auto
  from Suc.prems(1) sw obtain cr1 where cr1: "complexity_ratio V1 (fst (shape UtM)) = Inr cr1"
    by (cases "complexity_ratio V1 (fst (shape UtM))") auto
  show ?case
  proof (cases "stop_test (exact opts) t re1 (rec_error0_at i re1) i cr1")
    case True
    with Suc.prems(1) sw cr1 have "Vf = V1" "re = re1" "it = int i" "cr = cr1" by simp_all
    with sw cr1 True show ?thesis by (intro exI [of _ 0]) simp
  next
    case False
    with Suc.prems(1) sw cr1
    have run: "hals_loop eps UtM UtU opts t m (Suc i) (Some (re1, i, cr1)) V1 = Inr (Vf, re, it, cr)"
      by simp
    show ?thesis
    proof (cases m)
      case 0
      with run have "Vf = V1" "re = re1" "it = int i" "cr = cr1" by simp_all
      with sw cr1 0 show ?thesis by (intro exI [of _ 0]) simp
    next
      case (Suc m')
      then have "0 < m" by simp
      from Suc.IH [OF run this] obtain k where k: "k < m" "it = int (Suc i + k)"
        "sweep_iter eps UtM UtU opts k V1 = Inr (Vf, re)"
        "complexity_ratio Vf (fst (shape UtM)) = Inr cr"
        "k + 1 < m \<longrightarrow> stop_test (exact opts) t re (rec_error0_at (Suc i + k) re) (Suc i + k) cr"
        "\<forall>j<k. \<forall>Vj rej crj. sweep_iter eps UtM UtU opts j V1 = Inr (Vj, rej) \<longrightarrow>
            complexity_ratio Vj (fst (shape UtM)) = Inr crj \<longrightarrow>
            \<not> stop_test (exact opts) t rej (rec_error0_at (Suc i + j) rej) (Suc i + j) crj"
        by blast
      have notstop: "\<And>j Vj rej crj. j < Suc k \<Longrightarrow>
          sweep_iter eps UtM UtU opts j V = Inr (Vj, rej) \<Longrightarrow>
          complexity_ratio Vj (fst (shape UtM)) = Inr crj \<Longrightarrow>
          \<not> stop_test (exact opts) t rej (rec_error0_at (i + j) rej) (i + j) crj"
      proof -
        fix j Vj rej crj
        assume j: "j < Suc k" and sj: "sweep_iter eps UtM UtU opts j V = Inr (Vj, rej)"
          and cj: "complexity_ratio Vj (fst (shape UtM)) = Inr crj"
        show "\<not> stop_test (exact opts) t rej (rec_error0_at (i + j) rej) (i + j) crj"
        proof (cases j)
          case 0
          with sj sw cj cr1 False show ?thesis by simp
        next
          case (Suc j')
          with sj sw have "sweep_iter eps UtM UtU opts j' V1 = Inr (Vj, rej)" by simp
          moreover from Suc j have "j' < k" by simp
          ultimately show ?thesis using k(6) cj Suc by simp
        qed
      qed
      show ?thesis
        apply (intro exI [of _ "Suc k"])
        using k sw notstop by simp
    qed
  qed
qed

subsection \<open>When the outer loop ends\<close>


lemma identity_sweep_iter:
  "sweep_iter e [[2, 0], [0, 3]] [[1, 0], [0, 1]] default_options 3 [[2, 0], [0, 3]]
     = Inr ([[2, 0], [0, 3]], 0)"
  by (simp add: numeral_3_eq_3 identity_sweep)


subsection \<open>Exact mode\<close>


lemma inner_self_nonneg: "0 \<le> inner d d"
  unfolding inner_def by (induction d) simp_all

lemma row_body_rec_error_nonneg:
  "row_body eps UtM UtU opts k (V, re) = Inr (V', re') \<Longrightarrow> 0 \<le> re \<Longrightarrow> 0 \<le> re'"
  using inner_self_nonneg
  by (auto simp: row_body_def row_update_def row_normalize_def Let_def
           split: if_splits sum.splits prod.splits)

lemma rows_loop_rec_error_nonneg:
  "rows_loop (row_body eps UtM UtU opts) ks (V, re) = Inr (V', re') \<Longrightarrow> 0 \<le> re \<Longrightarrow> 0 \<le> re'"
proof (induction ks arbitrary: V re)
  case Nil
  then show ?case by simp
next
  case (Cons k ks)
  from Cons.prems(1) obtain V1 re1 where
    s: "row_body eps UtM UtU opts k (V, re) = Inr (V1, re1)"
    by (cases "row_body eps UtM UtU opts k (V, re)") auto
  with Cons.prems(1) have "rows_loop (row_body eps UtM UtU opts) ks (V1, re1) = Inr (V', re')"
    by simp
  moreover from row_body_rec_error_nonneg [OF s Cons.prems(2)] have "0 \<le> re1" .
  ultimately show ?case by (rule Cons.IH)
qed

lemma sweep_rec_error_nonneg:
  "sweep eps UtM UtU opts V = Inr (V', re) \<Longrightarrow> 0 \<le> re"
  unfolding sweep_def by (erule rows_loop_rec_error_nonneg) simp

lemma exact_never_breaks:
  assumes "0 \<le> re" "0 \<le> t" "t < 1"
  shows "\<not> stop_test True t re (rec_error0_at i re) i cr"
proof -
  have "t * re \<le> 1 * re" using assms by (intro mult_right_mono) simp_all
  then show ?thesis using assms by (simp add: stop_test_def rec_error0_at_def)
qed

lemma exact_mode_runs_to_cap:
  assumes "exact opts" "hals_nnls solve eps UtM UtU V opts = Inr (Vf, re, it, cr)"
  shows "it = 4999"
proof -
  from assms obtain V0 where
    run: "hals_loop eps UtM UtU opts (10 / 10 ^ 12) 5000 0 None V0 = Inr (Vf, re, it, cr)"
    by (auto simp: hals_nnls_def effective_tol_def effective_n_iter_max_def split: sum.splits)
  from hals_loop_result [OF run] obtain k where k: "k < 5000" "it = int k"
    "sweep_iter eps UtM UtU opts k V0 = Inr (Vf, re)"
    "k + 1 < 5000 \<longrightarrow> stop_test (exact opts) (10 / 10 ^ 12) re (rec_error0_at k re) k cr"
    by auto
  have "0 \<le> re" using k(3)
  proof (induction k arbitrary: V0)
    case 0
    then show ?case by (simp add: sweep_rec_error_nonneg)
  next
    case (Suc k)
    then show ?case by (auto split: sum.splits)
  qed
  then have "\<not> stop_test True (10 / 10 ^ 12) re (rec_error0_at k re) k cr"
    by (intro exact_never_breaks) simp_all
  with k assms(1) have "\<not> k + 1 < 5000" by auto
  with k(1,2) show ?thesis by simp
qed











subsection \<open>The degenerate-column error\<close>



















section \<open>The tensor solvers\<close>

subsection \<open>Unbound names\<close>

lemma lookup_multi_mode_dot:
  "lookup_name ''multi_mode_dot'' = Inl (NameError ''multi_mode_dot'')"
  by (simp add: lookup_name_def module_globals_def builtins_def)

lemma lookup_np: "lookup_name ''np'' = Inl (NameError ''np'')"
  by (simp add: lookup_name_def module_globals_def builtins_def)

lemma lookup_tl: "lookup_name ''tl'' = Inr (Module ''tensorly'')"
  by (simp add: lookup_name_def module_globals_def)

text \<open>
  C7. \<^verbatim>\<open>multi_mode_dot\<close> and \<^verbatim>\<open>np\<close> are bound nowhere in the module. Every
  call of \<^verbatim>\<open>active_set_nnls\<close> raises \<^verbatim>\<open>NameError\<close> at line 273, whatever the
  rest of its body does; every call of \<^verbatim>\<open>fista_nnls\<close> raises too, at line 363 or, when
  \<open>x\<close> is omitted and \<^verbatim>\<open>tl.zeros()\<close> raises, at line 356; and an iteration of
  the loop of \<^verbatim>\<open>fista_nnls\<close> would raise at line 375. Neither solver returns.
\<close>

theorem tensor_solvers_never_return:
  "active_set_nnls api core A B x n = Inl (NameError ''multi_mode_dot'')
   \<and> fista_nnls api A B (Some x0) n gradient_step sparsity = Inl (NameError ''multi_mode_dot'')
   \<and> fista_nnls api A B None n gradient_step sparsity
       = (case api_zeros_no_shape api of
            Inl e \<Rightarrow> Inl e
          | Inr z \<Rightarrow> Inl (NameError ''multi_mode_dot''))
   \<and> isl (active_set_nnls api core A B x n)
   \<and> isl (fista_nnls api A B x n gradient_step sparsity)
   \<and> fista_loop pinv BtA g (Suc m) i st = Inl (NameError ''np'')"
proof -
  have a: "active_set_nnls api core A B x n = Inl (NameError ''multi_mode_dot'')"
    by (simp add: active_set_nnls_def lookup_multi_mode_dot)
  have f: "fista_nnls api A B y n gradient_step sparsity
       = (case fista_x0 api y of
            Inl e \<Rightarrow> Inl e
          | Inr z \<Rightarrow> Inl (NameError ''multi_mode_dot''))" for y
    by (simp add: fista_nnls_def lookup_multi_mode_dot split: sum.splits)
  have l: "fista_loop pinv BtA g (Suc m) i st = Inl (NameError ''np'')"
    by (simp add: lookup_np)
  have i: "isl (fista_nnls api A B x n gradient_step sparsity)"
    by (simp add: f split: sum.splits)
  have f1: "fista_nnls api A B (Some x0) n gradient_step sparsity = Inl (NameError ''multi_mode_dot'')"
    by (simp add: f fista_x0_def)
  have f2: "fista_nnls api A B None n gradient_step sparsity
       = (case api_zeros_no_shape api of
            Inl e \<Rightarrow> Inl e
          | Inr z \<Rightarrow> Inl (NameError ''multi_mode_dot''))"
    by (simp add: f fista_x0_def)
  have ia: "isl (active_set_nnls api core A B x n)" by (simp add: a)
  from a f1 f2 ia i l show ?thesis by blast
qed

subsection \<open>The head of an active-set iteration\<close>

lemma tl_min_eq_Min: "w \<noteq> [] \<Longrightarrow> tl_min w = Min (set w)"
proof (cases w)
  case (Cons a list)
  then show ?thesis using Min.set_eq_fold [of a list] by (simp add: tl_min_def)
qed simp

lemma tl_max_eq_Max: "w \<noteq> [] \<Longrightarrow> tl_max w = Max (set w)"
proof (cases w)
  case (Cons a list)
  then show ?thesis using Max.set_eq_fold [of a list] by (simp add: tl_max_def)
qed simp

lemma argmax_first:
  assumes "w \<noteq> []"
  shows "argmax w < length w" and "w ! argmax w = Max (set w)"
    and "\<forall>i<argmax w. w ! i < Max (set w)"
proof -
  let ?P = "\<lambda>v. v \<noteq> Max (set w)"
  from assms have am: "argmax w = length (takeWhile ?P w)"
    by (simp add: argmax_def tl_max_eq_Max)
  from assms have "Max (set w) \<in> set w" by (intro Max_in) simp_all
  then have "\<exists>v\<in>set w. \<not> ?P v" by blast
  then have "takeWhile ?P w \<noteq> w" by simp
  moreover have "takeWhile ?P w = take (length (takeWhile ?P w)) w"
    by (rule takeWhile_eq_take)
  ultimately have "length (takeWhile ?P w) \<noteq> length w" by auto
  with length_takeWhile_le [of ?P w] have lt: "length (takeWhile ?P w) < length w"
    by simp
  with am show 1: "argmax w < length w" by simp
  from nth_length_takeWhile [OF lt] am show "w ! argmax w = Max (set w)" by simp
  show "\<forall>i<argmax w. w ! i < Max (set w)"
  proof (intro allI impI)
    fix i assume i: "i < argmax w"
    with am have "i < length (takeWhile ?P w)" by simp
    then have "takeWhile ?P w ! i \<in> set (takeWhile ?P w)" and "takeWhile ?P w ! i = w ! i"
      by (rule nth_mem, rule takeWhile_nth)
    then have "?P (w ! i)" using set_takeWhileD [of "w ! i" ?P w] by simp
    moreover from i 1 assms have "w ! i \<le> Max (set w)" by (intro Max_ge) simp_all
    ultimately show "w ! i < Max (set w)" by simp
  qed
qed

text \<open>
  C1, amended. At the start of an iteration (with \<open>w\<close> non-empty) the solver stops and
  returns \<open>x\<close> exactly when \<open>min(w) < 0\<close>. Whenever \<open>min(w) \<ge> 0\<close> it goes on:
  \<open>argmax(w)\<close>, the first index of the largest entry, is appended to \<open>P\<close> and
  removed from \<open>R\<close>, unless it is already the last entry of \<open>P\<close>, which leaves both
  lists as they are; an index that is to be moved and is not in \<open>R\<close> makes
  \<^verbatim>\<open>R.remove\<close> raise.
\<close>

theorem active_set_pivot_rule:
  assumes "w \<noteq> []"
  shows "(active_set_pivot w P R = Inr Stop \<longleftrightarrow> Min (set w) < 0)
    \<and> argmax w < length w \<and> w ! argmax w = Max (set w) \<and> (\<forall>i<argmax w. w ! i < Max (set w))
    \<and> (0 \<le> Min (set w) \<longrightarrow>
         active_set_pivot w P R =
           (if P \<noteq> [] \<and> last P = argmax w then Inr (Pivot P R)
            else if argmax w \<in> set R
              then Inr (Pivot (P @ [argmax w]) (remove1 (argmax w) R))
              else Inl NotInList))
    \<and> (Min (set w) < 0 \<longrightarrow>
         (\<forall>core m i st. as_w st = w \<longrightarrow> active_set_loop core (Suc m) i st = Inr (as_x st)))"
proof -
  note am = argmax_first [OF assms]
  have stop: "active_set_pivot w P R = Inr Stop \<longleftrightarrow> tl_min w < 0"
    using assms by (auto simp: active_set_pivot_def Let_def)
  have go: "active_set_pivot w P R =
           (if P \<noteq> [] \<and> last P = argmax w then Inr (Pivot P R)
            else if argmax w \<in> set R
              then Inr (Pivot (P @ [argmax w]) (remove1 (argmax w) R))
              else Inl NotInList)" if "0 \<le> tl_min w"
    using assms that by (auto simp: active_set_pivot_def Let_def)
  have ret: "active_set_loop core (Suc m) i st = Inr (as_x st)"
    if "tl_min w < 0" "as_w st = w" for core m i st
    using that assms by (simp add: active_set_pivot_def)
  from stop go am ret show ?thesis by (simp add: tl_min_eq_Min [OF assms])
qed

theorem active_set_pivot_rule_witness:
  "[1, 2] \<noteq> ([]::real list) \<and> (0::real) \<le> Min (set [1, 2])
   \<and> active_set_pivot [1, 2] [] [0, 1] = Inr (Pivot [1] [0])
   \<and> argmax [1, 2] = 1"
proof -
  have ne: "[1, 2] \<noteq> ([]::real list)" by simp
  have am: "argmax [1, 2] = 1" by (simp add: argmax_def tl_max_def)
  have mn: "(0::real) \<le> Min (set [1, 2])" by simp
  from active_set_pivot_rule [OF ne, of "[]" "[0, 1]"] mn
  have "active_set_pivot [1, 2] [] [0, 1] =
          (if argmax [1, 2] \<in> set [0, 1::nat]
           then Inr (Pivot ([] @ [argmax [1, 2]]) (remove1 (argmax [1, 2]) [0, 1]))
           else Inl NotInList)"
    by simp
  with am ne mn show ?thesis by simp
qed

text \<open>
  C1 as stated: the solver stops exactly when \<open>min(w) \<ge> 0\<close> and pivots whenever
  \<open>min(w) < 0\<close>. Line 284 tests the opposite: for \<open>w = [1, 2]\<close> the iteration
  pivots on index 1, and for \<open>w = [-1, 2]\<close> it stops.
\<close>

theorem active_set_stops_when_nonneg_counterexample:
  "active_set_pivot [1, 2] [] [0, 1] = Inr (Pivot [1] [0]) \<and> \<not> tl_min [1, 2] < 0
   \<and> active_set_pivot [-1, 2] [] [0, 1] = Inr Stop \<and> tl_min [-1, 2] < 0"
  by (simp add: active_set_pivot_def tl_min_def tl_max_def argmax_def)

subsection \<open>The momentum of fista_nnls\<close>



lemma nesterov_momentum_ge_1: "1 \<le> nesterov_momentum k"
proof (induction k)
  case 0
  then show ?case by simp
next
  case (Suc k)
  have "1 \<le> sqrt (1 + 4 * (nesterov_momentum k)\<^sup>2)"
    by (simp add: real_le_rsqrt)
  then show ?case by simp
qed

lemma nesterov_momentum_identity:
  "(nesterov_momentum (Suc k))\<^sup>2 - nesterov_momentum (Suc k) = (nesterov_momentum k)\<^sup>2"
proof -
  let ?s = "sqrt (1 + 4 * (nesterov_momentum k)\<^sup>2)"
  have s2: "?s\<^sup>2 = 1 + 4 * (nesterov_momentum k)\<^sup>2"
    by simp
  have "((1 + ?s) / 2)\<^sup>2 - (1 + ?s) / 2 = (?s\<^sup>2 - 1) / 4"
    by (simp add: power2_eq_square field_simps)
  with s2 show ?thesis by simp
qed


subsection \<open>The step of fista_nnls\<close>

text \<open>
  Line 373 compares \<open>gradient_step * gradient\<close> with \<open>x\<close>, the previous iterate, and
  falls back on \<open>x_upd\<close>, the extrapolated point. The two are the same array in the
  first two iterations, and there \<open>delta_x\<close> is the elementwise minimum.
\<close>

lemma fista_delta_x_is_min:
  "length g = length x \<Longrightarrow> fista_delta_x gs g x x = map2 min (map ((*) gs) g) x"
proof (induction g x rule: list_induct2)
  case Nil
  then show ?case by (simp add: fista_delta_x_def tl_where_def)
next
  case (Cons a g b x)
  then show ?case by (simp add: fista_delta_x_def tl_where_def min_def)
qed

lemma fista_delta_x_not_min:
  "fista_gradient (map ((*) 2)) [0] [1 / 2] = [1]
   \<and> fista_delta_x 1 [1] [2] [1 / 2] = [1]
   \<and> map2 min (map ((*) 1) [1]) [1 / 2] = [1 / 2::real]
   \<and> fs_x (fst (fista_step (map ((*) 2)) [0] 1 2
              \<lparr>fs_x = [2], fs_x_upd = [1 / 2], fs_momentum_0 = 1, fs_norm_0 = 0\<rparr>)) = [- 1 / 2]"
  by (simp add: fista_step_def fista_gradient_def fista_delta_x_def tl_where_def Let_def)





section \<open>Non-negativity\<close>

lemma nonneg_iff_rows: "nonneg V \<longleftrightarrow> (\<forall>k. row_ok V k)"
proof
  assume "nonneg V"
  then show "\<forall>k. row_ok V k" by (simp add: nonneg_def row_ok_def list_all_length)
next
  assume a: "\<forall>k. row_ok V k"
  show "nonneg V"
    unfolding nonneg_def list_all_length [of _ V]
  proof (intro allI impI)
    fix n assume "n < length V"
    with a [rule_format, of n] show "list_all (\<lambda>v. 0 \<le> v) (V ! n)" by (simp add: row_ok_def)
  qed
qed

lemma clamp_nonneg:
  "list_all (\<lambda>v. 0 \<le> v)
     (map2 (+) row (tl_where (map2 (\<lambda>s v. - v < s) step row) step (map uminus row)))"
  by (auto simp: list_all_length tl_where_def)

lemma updated_row_nonneg:
  "list_all (\<lambda>v. 0 \<le> v) (map2 (+) (V ! k) (deltaV UtM UtU sc V k))"
  unfolding deltaV_def Let_def by (rule clamp_nonneg)

lemma tl_max_ge: "x \<in> set xs \<Longrightarrow> x \<le> tl_max xs"
proof -
  assume x: "x \<in> set xs"
  then have "xs \<noteq> []" by auto
  with x show ?thesis by (simp add: tl_max_eq_Max)
qed

lemma row_ok_update_same:
  "list_all (\<lambda>v. 0 \<le> v) row \<Longrightarrow> row_ok (V[k := row]) k"
  by (simp add: row_ok_def)

lemma row_ok_update_other:
  "j \<noteq> k \<Longrightarrow> row_ok (V[k := row]) j = row_ok V j"
  by (simp add: row_ok_def)

lemma zero_row_fill_nonneg:
  assumes "0 \<le> eps" "k < length V1" "list_all (\<lambda>v. v = 0) (V1 ! k)"
  shows "list_all (\<lambda>v. 0 \<le> v) (replicate (length (V1 ! k)) (eps * tl_max (concat V1)))"
proof (cases "V1 ! k")
  case Nil
  then show ?thesis by simp
next
  case (Cons a as)
  with assms(3) have "a = 0" by simp
  moreover from assms(2) have "V1 ! k \<in> set V1" by (rule nth_mem)
  with Cons have "a \<in> set (concat V1)" by (auto intro!: bexI [of _ "V1 ! k"])
  ultimately have "0 \<le> tl_max (concat V1)" using tl_max_ge by blast
  with assms(1) show ?thesis by (simp add: list_all_length)
qed

text \<open>What an update of row k leaves: the same V, or V with a non-negative row k.\<close>

lemma row_update_shape:
  assumes "0 \<le> eps" and "row_update eps UtM UtU opts k (V, re) = Inr (V', re')"
  shows "(UtU ! k ! k = 0 \<and> V' = V) \<or>
         (UtU ! k ! k \<noteq> 0 \<and> (\<exists>row. V' = V[k := row] \<and> list_all (\<lambda>v. 0 \<le> v) row))"
proof (cases "UtU ! k ! k = 0")
  case True
  with assms(2) show ?thesis by (simp add: row_update_def split: if_splits)
next
  case False
  let ?row = "map2 (+) (V ! k) (deltaV UtM UtU (sparsity_coefficient opts) V k)"
  let ?V1 = "V[k := ?row]"
  have r1: "list_all (\<lambda>v. 0 \<le> v) ?row" by (rule updated_row_nonneg)
  show ?thesis
  proof (cases "nonzero_rows opts \<and> list_all (\<lambda>v. v = 0) (?V1 ! k)")
    case fx: True
    let ?c = "eps * tl_max (concat ?V1)"
    from assms(2) False fx have V': "V' = V[k := replicate (length (?V1 ! k)) ?c]"
      by (simp add: row_update_def Let_def split: if_splits)
    show ?thesis
    proof (cases "k < length V")
      case True
      with fx have "list_all (\<lambda>v. 0 \<le> v) (replicate (length (?V1 ! k)) ?c)"
        by (intro zero_row_fill_nonneg [OF assms(1)]) simp_all
      with V' False show ?thesis by blast
    next
      case False
      then have "\<And>a b. V[k := a] = V[k := b]" by (simp add: list_update_beyond)
      with V' have "V' = V[k := []]" by simp
      with \<open>UtU ! k ! k \<noteq> 0\<close> show ?thesis by (intro disjI2 conjI exI [of _ "[]"]) simp_all
    qed
  next
    case nofix: False
    with assms(2) \<open>UtU ! k ! k \<noteq> 0\<close> have "V' = ?V1"
      by (auto simp: row_update_def Let_def split: if_splits)
    with r1 \<open>UtU ! k ! k \<noteq> 0\<close> show ?thesis by blast
  qed
qed

lemma tl_norm_nonneg: "0 \<le> tl_norm v"
  by (simp add: tl_norm_def inner_self_nonneg)

lemma row_normalize_shape:
  assumes "row_normalize opts n k (V, re) = Inr (V', re')"
  shows "V' = V \<or> (\<exists>row. V' = V[k := row] \<and>
           (list_all (\<lambda>v. 0 \<le> v) (V ! k) \<longrightarrow> list_all (\<lambda>v. 0 \<le> v) row))"
proof (cases "normalize opts")
  case False
  with assms show ?thesis by (simp add: row_normalize_def)
next
  case True
  show ?thesis
  proof (cases "tl_norm (V ! k) = 0")
    case z: True
    with assms True have "V' = V[k := replicate n (1 / sqrt (real n))]"
      by (simp add: row_normalize_def Let_def split: if_splits)
    moreover have "list_all (\<lambda>v. 0 \<le> v) (replicate n (1 / sqrt (real n)))"
      by (simp add: list_all_length)
    ultimately show ?thesis by blast
  next
    case nz: False
    with assms True have "V' = V[k := map (\<lambda>v. v / tl_norm (V ! k)) (V ! k)]"
      by (simp add: row_normalize_def Let_def)
    moreover have "list_all (\<lambda>v. 0 \<le> v) (V ! k) \<longrightarrow>
        list_all (\<lambda>v. 0 \<le> v) (map (\<lambda>v. v / tl_norm (V ! k)) (V ! k))"
      using tl_norm_nonneg [of "V ! k"] by (simp add: list_all_length)
    ultimately show ?thesis by blast
  qed
qed

lemma row_body_rows:
  assumes "0 \<le> eps" and "row_body eps UtM UtU opts k (V, re) = Inr (V', re')"
  shows "length V' = length V"
    and "j \<noteq> k \<Longrightarrow> row_ok V' j = row_ok V j"
    and "row_ok V k \<or> UtU ! k ! k \<noteq> 0 \<Longrightarrow> row_ok V' k"
proof -
  from assms(2) obtain V2 re2 where
    u: "row_update eps UtM UtU opts k (V, re) = Inr (V2, re2)" and
    n: "row_normalize opts (snd (shape UtM)) k (V2, re2) = Inr (V', re')"
    by (cases "row_update eps UtM UtU opts k (V, re)") (auto simp: row_body_def)
  note us = row_update_shape [OF assms(1) u] and ns = row_normalize_shape [OF n]
  from us have l2: "length V2 = length V" by auto
  from ns have l': "length V' = length V2" by auto
  from l2 l' show "length V' = length V" by simp
  have o2: "row_ok V2 j = row_ok V j" if "j \<noteq> k" for j
    using us that by (auto simp: row_ok_update_other)
  have o': "row_ok V' j = row_ok V2 j" if "j \<noteq> k" for j
    using ns that by (auto simp: row_ok_update_other)
  from o2 o' show "j \<noteq> k \<Longrightarrow> row_ok V' j = row_ok V j" by simp
  have k2: "row_ok V2 k" if "row_ok V k \<or> UtU ! k ! k \<noteq> 0"
    using us that by (auto simp: row_ok_update_same)
  have k': "row_ok V' k" if "row_ok V2 k"
  proof (cases "k < length V2")
    case True
    with that have "list_all (\<lambda>v. 0 \<le> v) (V2 ! k)" by (simp add: row_ok_def)
    with ns that show ?thesis by (auto simp: row_ok_update_same)
  next
    case False
    with l' show ?thesis by (simp add: row_ok_def)
  qed
  from k2 k' show "row_ok V k \<or> UtU ! k ! k \<noteq> 0 \<Longrightarrow> row_ok V' k" by blast
qed

lemma rows_loop_rows:
  assumes "0 \<le> eps"
  shows "rows_loop (row_body eps UtM UtU opts) ks (V, re) = Inr (V', re') \<Longrightarrow>
     length V' = length V \<and>
     (\<forall>j. row_ok V j \<or> (j \<in> set ks \<and> UtU ! j ! j \<noteq> 0) \<longrightarrow> row_ok V' j)"
proof (induction ks arbitrary: V re)
  case Nil
  then show ?case by simp
next
  case (Cons k ks)
  from Cons.prems obtain V1 re1 where
    b: "row_body eps UtM UtU opts k (V, re) = Inr (V1, re1)" and
    r: "rows_loop (row_body eps UtM UtU opts) ks (V1, re1) = Inr (V', re')"
    by (cases "row_body eps UtM UtU opts k (V, re)") auto
  note rb = row_body_rows [OF assms b] and ih = Cons.IH [OF r]
  have "row_ok V' j" if "row_ok V j \<or> (j \<in> set (k # ks) \<and> UtU ! j ! j \<noteq> 0)" for j
  proof (cases "j = k")
    case True
    with that rb(3) have "row_ok V1 j" by auto
    with ih show ?thesis by blast
  next
    case False
    with that rb(2) [of j] have "row_ok V1 j \<or> (j \<in> set ks \<and> UtU ! j ! j \<noteq> 0)" by auto
    with ih show ?thesis by blast
  qed
  with rb(1) ih show ?case by simp
qed

lemma sweep_nonneg:
  assumes "0 \<le> eps" and "sweep eps UtM UtU opts V = Inr (V', re)"
    and "nonneg V \<or> (length V \<le> length UtM \<and> (\<forall>k<length V. UtU ! k ! k \<noteq> 0))"
  shows "nonneg V'"
proof -
  note rl = rows_loop_rows [OF assms(1) assms(2) [unfolded sweep_def]]
  have "row_ok V' j" for j
  proof (cases "j < length V")
    case True
    from assms(3) have "row_ok V j \<or> (j \<in> set [0..<fst (shape UtM)] \<and> UtU ! j ! j \<noteq> 0)"
    proof
      assume "nonneg V"
      then show ?thesis by (simp add: nonneg_iff_rows)
    next
      assume "length V \<le> length UtM \<and> (\<forall>k<length V. UtU ! k ! k \<noteq> 0)"
      with True show ?thesis by (simp add: shape_def)
    qed
    with rl show ?thesis by blast
  next
    case False
    with rl show ?thesis by (simp add: row_ok_def)
  qed
  then show ?thesis by (simp add: nonneg_iff_rows)
qed

lemma hals_loop_nonneg:
  assumes "0 \<le> eps"
  shows "hals_loop eps UtM UtU opts t m i prev V = Inr (Vf, re, it, cr) \<Longrightarrow> nonneg V \<Longrightarrow> nonneg Vf"
proof (induction m arbitrary: i prev V)
  case 0
  then show ?case by (auto split: option.splits)
next
  case (Suc m)
  from Suc.prems(1) obtain V1 re1 where sw: "sweep eps UtM UtU opts V = Inr (V1, re1)"
    by (cases "sweep eps UtM UtU opts V") auto
  from Suc.prems(1) sw obtain cr1 where cr1: "complexity_ratio V1 (fst (shape UtM)) = Inr cr1"
    by (cases "complexity_ratio V1 (fst (shape UtM))") auto
  from sweep_nonneg [OF assms sw] Suc.prems(2) have n1: "nonneg V1" by blast
  show ?case
  proof (cases "stop_test (exact opts) t re1 (rec_error0_at i re1) i cr1")
    case True
    with Suc.prems(1) sw cr1 n1 show ?thesis by simp
  next
    case False
    with Suc.prems(1) sw cr1
    have "hals_loop eps UtM UtU opts t m (Suc i) (Some (re1, i, cr1)) V1 = Inr (Vf, re, it, cr)"
      by simp
    from Suc.IH [OF this n1] show ?thesis .
  qed
qed

text \<open>
  The half of C4 that is about \<^verbatim>\<open>hals_nnls\<close>: with \<open>eps \<ge> 0\<close>, a returned \<open>V\<close>
  has no negative entry when the loop starts from a non-negative \<open>V\<close> (a non-negative
  warm start), or when every diagonal entry of \<open>UtU\<close> is non-zero, so that the first
  sweep rewrites every row (the case of no warm start and a non-singular Gram matrix).
\<close>

lemma hals_nnls_nonneg:
  assumes "0 \<le> eps" and "init_V solve UtM UtU V = Inr V0"
    and "nonneg V0 \<or> (length V0 \<le> length UtM \<and> (\<forall>k<length V0. UtU ! k ! k \<noteq> 0))"
    and "hals_nnls solve eps UtM UtU V opts = Inr (Vf, re, it, cr)"
  shows "nonneg Vf"
proof -
  let ?m = "nat (effective_n_iter_max opts)"
  let ?t = "effective_tol opts"
  from assms(2,4) have run: "hals_loop eps UtM UtU opts ?t ?m 0 None V0 = Inr (Vf, re, it, cr)"
    by (simp add: hals_nnls_def)
  then obtain m where m: "?m = Suc m" by (cases ?m) simp_all
  from run m obtain V1 re1 where sw: "sweep eps UtM UtU opts V0 = Inr (V1, re1)"
    by (cases "sweep eps UtM UtU opts V0") auto
  from run m sw obtain cr1 where cr1: "complexity_ratio V1 (fst (shape UtM)) = Inr cr1"
    by (cases "complexity_ratio V1 (fst (shape UtM))") auto
  from sweep_nonneg [OF assms(1) sw assms(3)] have n1: "nonneg V1" .
  show ?thesis
  proof (cases "stop_test (exact opts) ?t re1 (rec_error0_at 0 re1) 0 cr1")
    case True
    with run m sw cr1 n1 show ?thesis by simp
  next
    case False
    with run m sw cr1
    have "hals_loop eps UtM UtU opts ?t m (Suc 0) (Some (re1, 0, cr1)) V1 = Inr (Vf, re, it, cr)"
      by simp
    from hals_loop_nonneg [OF assms(1) this n1] show ?thesis .
  qed
qed

text \<open>
  C4 also promises a non-negative \<open>x\<close> from \<^verbatim>\<open>active_set_nnls\<close>. A call with a
  non-negative warm start, here \<open>A = [1]\<close>, \<open>B = [[[1]]]\<close>, \<open>x = [1]\<close> and the
  default \<open>n_iter_max = 100\<close>, returns no \<open>x\<close>: it raises \<^verbatim>\<open>NameError\<close> at
  line 273.
\<close>

theorem active_set_nnls_returns_nothing:
  "list_all (\<lambda>v. 0 \<le> v) [1::real]
   \<and> active_set_nnls api core [1] [[[1]]] (Some [1]) 100 = Inl (NameError ''multi_mode_dot'')"
  by (simp add: active_set_nnls_def lookup_multi_mode_dot)

end
